theory Spec2Isabelle
  imports Main
begin

section \<open>Python string primitives used by the collector\<close>

text \<open>
  Python strings are modelled as HOL strings. Only the operations the sources call are
  given: \<^verbatim>\<open>str.startswith\<close>, the substring test \<^verbatim>\<open>in\<close>, \<^verbatim>\<open>str.replace\<close> with a
  non-empty pattern, \<^verbatim>\<open>str.split(sep)\<close> on a one-character separator.
\<close>

definition startswith :: "string \<Rightarrow> string \<Rightarrow> bool" where
  "startswith s p = (take (length p) s = p)"

fun str_contains :: "string \<Rightarrow> string \<Rightarrow> bool" where
  "str_contains p [] = (p = [])"
| "str_contains p (c # cs) = (startswith (c # cs) p \<or> str_contains p cs)"

text \<open>
  \<^verbatim>\<open>s.replace(old, new)\<close>: every non-overlapping occurrence of \<open>old\<close>, scanning from the
  left, is replaced. The sources only call it with a non-empty \<open>old\<close>; for an empty one
  the model returns the string unchanged.
\<close>

function py_replace :: "string \<Rightarrow> string \<Rightarrow> string \<Rightarrow> string" where
  "py_replace old new [] = []"
| "py_replace old new (c # cs) =
     (if old \<noteq> [] \<and> startswith (c # cs) old
      then new @ py_replace old new (drop (length old) (c # cs))
      else c # py_replace old new cs)"
  by pat_completeness auto
termination
  by (relation "measure (\<lambda>(old, new, s). length s)") (auto simp: neq_Nil_conv)

section \<open>The IRC client: tags\<close>

abbreviation backslash :: char where
  "backslash \<equiv> CHR 0x5C"

text \<open>\<^verbatim>\<open>s.split(sep)\<close> for a one-character separator: one piece more than separators.\<close>

fun split_on :: "char \<Rightarrow> string \<Rightarrow> string list" where
  "split_on d [] = [[]]"
| "split_on d (c # cs) =
     (if c = d then [] # split_on d cs
      else (case split_on d cs of
              [] \<Rightarrow> [[c]]
            | x # xs \<Rightarrow> (c # x) # xs))"

text \<open>
  \<^verbatim>\<open>self.tag_pattern.match(message)\<close> with the pattern \<^verbatim>\<open>@([^ ]+) \<close>: the message has to
  start with \<^verbatim>\<open>@\<close>, followed by at least one character that is not a space, followed by
  a space. Group 1 is the run of non-space characters.
\<close>

definition tag_pattern_match :: "string \<Rightarrow> string option" where
  "tag_pattern_match message =
     (case message of
        [] \<Rightarrow> None
      | c # rest \<Rightarrow>
          if c = CHR ''@'' \<and> takeWhile (\<lambda>x. x \<noteq> CHR '' '') rest \<noteq> []
             \<and> dropWhile (\<lambda>x. x \<noteq> CHR '' '') rest \<noteq> []
          then Some (takeWhile (\<lambda>x. x \<noteq> CHR '' '') rest)
          else None)"

text \<open>
  Line 370: \<^verbatim>\<open>value.replace('\\s', ' ').replace('\\:', ';').replace('\\\\', '\\')\<close>,
  three passes over the value, one after the other.
\<close>

definition unescape :: "string \<Rightarrow> string" where
  "unescape v =
     py_replace [backslash, backslash] [backslash]
       (py_replace [backslash, CHR '':''] '';''
          (py_replace [backslash, CHR ''s''] '' '' v))"

text \<open>The body of the loop of \<^verbatim>\<open>_parse_tags\<close>: a piece without \<^verbatim>\<open>=\<close> is skipped.\<close>

definition parse_tag :: "(string \<rightharpoonup> string) \<Rightarrow> string \<Rightarrow> (string \<rightharpoonup> string)" where
  "parse_tag tags t =
     (if CHR ''='' \<in> set t
      then tags(takeWhile (\<lambda>x. x \<noteq> CHR ''='') t \<mapsto>
                  unescape (tl (dropWhile (\<lambda>x. x \<noteq> CHR ''='') t)))
      else tags)"

definition parse_tags :: "string \<Rightarrow> (string \<rightharpoonup> string)" where
  "parse_tags message =
     (case tag_pattern_match message of
        None \<Rightarrow> Map.empty
      | Some tag_string \<Rightarrow> foldl parse_tag Map.empty (split_on CHR '';'' tag_string))"

text \<open>
  The escape rules as the specification words them, read in one pass from the left:
  \<^verbatim>\<open>\s\<close> is a space, \<^verbatim>\<open>\:\<close> is a semicolon, \<^verbatim>\<open>\\\<close> is a backslash, and any other
  character stands for itself.
\<close>

fun unescape_spec :: "string \<Rightarrow> string" where
  "unescape_spec (a # b # cs) =
     (if a = backslash \<and> b = CHR ''s'' then CHR '' '' # unescape_spec cs
      else if a = backslash \<and> b = CHR '':'' then CHR '';'' # unescape_spec cs
      else if a = backslash \<and> b = backslash then backslash # unescape_spec cs
      else a # unescape_spec (b # cs))"
| "unescape_spec cs = cs"

section \<open>The IRC client: numbers and timestamps\<close>

datatype py_exn =
  ValueError | OSError | OverflowError | KeyError | TypeError
  | AttributeError | ConnectionError | ConnectionClosed | RequestException | IntegrityError

text \<open>
  \<^verbatim>\<open>str.strip()\<close> for characters below 256: the characters \<^verbatim>\<open>str.isspace\<close> accepts are
  removed from both ends.
\<close>

definition py_isspace :: "char \<Rightarrow> bool" where
  "py_isspace c = ((of_char c :: nat) \<in> {9, 10, 11, 12, 13, 28, 29, 30, 31, 32, 133, 160})"

definition py_strip :: "string \<Rightarrow> string" where
  "py_strip s = rev (dropWhile py_isspace (rev (dropWhile py_isspace s)))"

text \<open>
  Python's \<^verbatim>\<open>int(s)\<close> on a string, for characters below 256. The whitespace it skips
  around the number is narrower than that of \<^verbatim>\<open>str.strip\<close> (the separators 28-31 are
  refused); one sign is allowed, then decimal digits follow, with single underscores
  allowed between digits; a number of more than 4300 digits is refused (the
  interpreter's default \<^verbatim>\<open>sys.int_max_str_digits\<close>). \<open>None\<close> stands for the
  \<^verbatim>\<open>ValueError\<close>.
\<close>

definition int_isspace :: "char \<Rightarrow> bool" where
  "int_isspace c = ((of_char c :: nat) \<in> {9, 10, 11, 12, 13, 32, 133, 160})"

definition int_max_str_digits :: nat where
  "int_max_str_digits = 4300"

definition is_digit :: "char \<Rightarrow> bool" where
  "is_digit c = (48 \<le> (of_char c :: nat) \<and> (of_char c :: nat) \<le> 57)"

fun int_digits :: "string \<Rightarrow> bool" where
  "int_digits [] = False"
| "int_digits [c] = is_digit c"
| "int_digits (c # d # cs) =
     (is_digit c \<and> (if d = CHR ''_'' then int_digits cs else int_digits (d # cs)))"

definition digits_value :: "string \<Rightarrow> nat" where
  "digits_value s = foldl (\<lambda>acc c. 10 * acc + (of_char c - 48)) 0 (filter is_digit s)"

definition py_int :: "string \<Rightarrow> int option" where
  "py_int s =
     (let t = rev (dropWhile int_isspace (rev (dropWhile int_isspace s)));
          signed = (t \<noteq> [] \<and> (hd t = CHR ''-'' \<or> hd t = CHR ''+''));
          body = (if signed then tl t else t)
      in if int_digits body \<and> length (filter is_digit body) \<le> int_max_str_digits
         then Some ((if signed \<and> hd t = CHR ''-'' then - 1 else 1) * int (digits_value body))
         else None)"

text \<open>\<^verbatim>\<open>_parse_int\<close>: a missing or empty value and a value that is no integer give \<open>None\<close>.\<close>

fun parse_int :: "string option \<Rightarrow> int option" where
  "parse_int None = None"
| "parse_int (Some v) = (if v = [] then None else py_int v)"

text \<open>
  The clock and \<^verbatim>\<open>datetime.utcfromtimestamp(ms / 1000.0)\<close> belong to the interpreter; they
  are parameters of the model. The conversion may raise.
\<close>

record 't clock =
  utcnow :: 't
  utcfromtimestamp_ms :: "int \<Rightarrow> py_exn + 't"

text \<open>
  \<^verbatim>\<open>_parse_tmi_timestamp\<close>: \<^verbatim>\<open>ValueError\<close> and \<^verbatim>\<open>OSError\<close> are caught and answered with
  the current time; any other exception of the conversion leaves the function.
\<close>

definition parse_tmi_timestamp :: "'t clock \<Rightarrow> string option \<Rightarrow> py_exn + 't" where
  "parse_tmi_timestamp clk tmi_sent_ts =
     (case tmi_sent_ts of
        None \<Rightarrow> Inr (utcnow clk)
      | Some v \<Rightarrow>
          if v = [] then Inr (utcnow clk)
          else (case py_int v of
                  None \<Rightarrow> Inr (utcnow clk)
                | Some timestamp_ms \<Rightarrow>
                    (case utcfromtimestamp_ms clk timestamp_ms of
                       Inr t \<Rightarrow> Inr t
                     | Inl e \<Rightarrow> if e = ValueError \<or> e = OSError then Inr (utcnow clk) else Inl e)))"

section \<open>The IRC client: moderation notices\<close>

text \<open>
  \<^verbatim>\<open>re.search(r'CLEARCHAT #([^ ]+)(?: :(.+))?', message)\<close>. At one position the pattern
  needs the keyword and at least one non-space character; group 1 is the whole run of
  non-space characters, and group 2 is present when that run is followed by a space, a
  colon and at least one character other than a newline (it then runs to the next
  newline). The search takes the leftmost position that matches.
\<close>

definition clearchat_target :: "string \<Rightarrow> string option" where
  "clearchat_target after =
     (if startswith after '' :'' \<and> takeWhile (\<lambda>x. x \<noteq> CHR 0x0A) (drop 2 after) \<noteq> []
      then Some (takeWhile (\<lambda>x. x \<noteq> CHR 0x0A) (drop 2 after))
      else None)"

definition clearchat_match_at :: "string \<Rightarrow> (string \<times> string option) option" where
  "clearchat_match_at s =
     (if startswith s ''CLEARCHAT #'' \<and> takeWhile (\<lambda>x. x \<noteq> CHR '' '') (drop 11 s) \<noteq> []
      then Some (takeWhile (\<lambda>x. x \<noteq> CHR '' '') (drop 11 s),
                 clearchat_target (dropWhile (\<lambda>x. x \<noteq> CHR '' '') (drop 11 s)))
      else None)"

fun clearchat_search :: "string \<Rightarrow> (string \<times> string option) option" where
  "clearchat_search [] = None"
| "clearchat_search (c # cs) =
     (case clearchat_match_at (c # cs) of
        Some m \<Rightarrow> Some m
      | None \<Rightarrow> clearchat_search cs)"

record 't ban_event =
  ban_broadcaster_user_id :: "string option"
  ban_broadcaster_user_login :: string
  ban_broadcaster_user_name :: string
  ban_user_id :: "string option"
  ban_user_login :: string
  ban_user_name :: string
  ban_moderator_user_id :: "string option"
  ban_moderator_user_login :: "string option"
  ban_moderator_user_name :: "string option"
  ban_reason :: string
  ban_is_permanent :: bool
  ban_ends_at :: "'t option"
  ban_banned_at :: 't

text \<open>
  What \<^verbatim>\<open>_handle_clearchat\<close> does with a message: nothing when the pattern does not match,
  a log line for a channel-wide clear, nothing when no \<^verbatim>\<open>on_ban\<close> callback is set, and
  otherwise one call of the callback with the event. An exception of the timestamp
  conversion leaves the handler before the callback is called.
\<close>

datatype 't clearchat_result =
  NoMatch
  | ChannelCleared string
  | NoCallback
  | BanCallback "'t ban_event"
  | Raised py_exn

definition handle_clearchat :: "'t clock \<Rightarrow> bool \<Rightarrow> string \<Rightarrow> 't clearchat_result" where
  "handle_clearchat clk on_ban message =
     (let tags = parse_tags message in
      case clearchat_search message of
        None \<Rightarrow> NoMatch
      | Some (channel, None) \<Rightarrow> ChannelCleared channel
      | Some (channel, Some target_user) \<Rightarrow>
          if \<not> on_ban then NoCallback
          else
            let ban_duration = parse_int (tags ''ban-duration'');
                is_permanent = (ban_duration = None)
            in (case parse_tmi_timestamp clk (tags ''tmi-sent-ts'') of
                  Inl e \<Rightarrow> Raised e
                | Inr sent \<Rightarrow>
                    BanCallback
                      \<lparr> ban_broadcaster_user_id = tags ''room-id'',
                        ban_broadcaster_user_login = channel,
                        ban_broadcaster_user_name = channel,
                        ban_user_id = tags ''target-user-id'',
                        ban_user_login = py_strip target_user,
                        ban_user_name = py_strip target_user,
                        ban_moderator_user_id = None,
                        ban_moderator_user_login = None,
                        ban_moderator_user_name = None,
                        ban_reason = [],
                        ban_is_permanent = is_permanent,
                        ban_ends_at = (if is_permanent then None else Some (utcnow clk)),
                        ban_banned_at = sent \<rparr>))"

text \<open>A clock for the concrete runs below: time is counted in milliseconds.\<close>

definition sample_clock :: "int clock" where
  "sample_clock = \<lparr> utcnow = 1700000000000, utcfromtimestamp_ms = Inr \<rparr>"

section \<open>The IRC client: joining channels\<close>




text \<open>
  \<^verbatim>\<open>str.lower\<close> for characters below 256: the letters A-Z and the capital letters of
  Latin-1 (192-222 without the multiplication sign 215) move up by 32.
\<close>

definition lower_char :: "char \<Rightarrow> char" where
  "lower_char c =
     (let n = (of_char c :: nat)
      in if (65 \<le> n \<and> n \<le> 90) \<or> (192 \<le> n \<and> n \<le> 222 \<and> n \<noteq> 215)
         then char_of (n + 32) else c)"

definition py_lower :: "string \<Rightarrow> string" where
  "py_lower s = map lower_char s"

text \<open>Lines 180-183 of \<^verbatim>\<open>join_channel\<close>: the name with its \<^verbatim>\<open>#\<close>, in lower case.\<close>

definition normalize_channel :: "string \<Rightarrow> string" where
  "normalize_channel channel =
     py_lower (if startswith channel ''#'' then channel else ''#'' @ channel)"




section \<open>The token manager\<close>

text \<open>
  The HTTP collaborator and the \<^verbatim>\<open>.env\<close> file are outside the program. Every call the
  token manager makes is recorded in a log, and what the outside answers may depend on
  the calls made so far (the platform rotates refresh tokens). A response is a status
  code with its JSON body (\<open>None\<close> when the body is not a JSON object), or the
  \<^verbatim>\<open>requests.exceptions.RequestException\<close> of a failed request.
\<close>

datatype http_call =
  ValidateCall string
  | RefreshCall string
  | SaveEnvCall string string

datatype 'b http_result =
  HttpResponse int "'b option"
  | RequestFailed

record validation =
  v_client_id :: "string option"
  v_login :: "string option"
  v_scopes :: "string list option"
  v_user_id :: "string option"
  v_expires_in :: "int option"

record token_response =
  r_access_token :: "string option"
  r_refresh_token :: "string option"

record token_pair =
  access_token :: string
  refresh_token :: string

record outside =
  validate_endpoint :: "http_call list \<Rightarrow> string \<Rightarrow> validation http_result"
  token_endpoint :: "http_call list \<Rightarrow> string \<Rightarrow> token_response http_result"
  env_file_write :: "http_call list \<Rightarrow> string \<Rightarrow> string \<Rightarrow> py_exn option"

text \<open>
  The body of the \<^verbatim>\<open>try\<close> of \<^verbatim>\<open>validate_token\<close> (lines 92-144), applied to the answer of
  the endpoint. On a 200 the missing scope raises \<^verbatim>\<open>ValueError\<close>, and the log line needs
  the keys \<^verbatim>\<open>login\<close> and \<^verbatim>\<open>expires_in\<close>.
\<close>

definition validate_response :: "validation http_result \<Rightarrow> py_exn + validation option" where
  "validate_response response =
     (case response of
        RequestFailed \<Rightarrow> Inl RequestException
      | HttpResponse status_code body \<Rightarrow>
          if status_code = 200 then
            (case body of
               None \<Rightarrow> Inl ValueError
             | Some validation_data \<Rightarrow>
                 let scopes = (case v_scopes validation_data of None \<Rightarrow> [] | Some l \<Rightarrow> l)
                 in if ''chat:read'' \<notin> set scopes then Inl ValueError
                    else if v_login validation_data = None then Inl KeyError
                    else if v_expires_in validation_data = None then Inl KeyError
                    else Inr (Some validation_data))
          else if status_code = 401 then Inr None
          else Inr None)"

text \<open>
  \<^verbatim>\<open>validate_token\<close>: an empty token is answered without a request; both \<^verbatim>\<open>except\<close>
  clauses (lines 146-152) turn every exception of the body into \<^verbatim>\<open>None\<close>.
\<close>

definition validate_token ::
  "outside \<Rightarrow> http_call list \<Rightarrow> string \<Rightarrow> validation option \<times> http_call list" where
  "validate_token out log tok =
     (if tok = [] then (None, log)
      else (case validate_response (validate_endpoint out log tok) of
              Inl e \<Rightarrow> (None, log @ [ValidateCall tok])
            | Inr r \<Rightarrow> (r, log @ [ValidateCall tok])))"

text \<open>
  The part of \<^verbatim>\<open>refresh_access_token\<close> that runs while the lock is held (lines 190-253):
  one POST, and on a 200 the write of both tokens to the \<^verbatim>\<open>.env\<close> file. Every failure
  leaves the function as an exception. \<open>refresh_finish\<close> is what happens once the
  answer to the POST is there.
\<close>

definition refresh_finish ::
  "outside \<Rightarrow> http_call list \<Rightarrow> token_response http_result
     \<Rightarrow> (py_exn + token_pair) \<times> http_call list" where
  "refresh_finish out log1 response =
     (case response of
        RequestFailed \<Rightarrow> (Inl ValueError, log1)
      | HttpResponse status_code body \<Rightarrow>
          if status_code = 200 then
            (case body of
               None \<Rightarrow> (Inl ValueError, log1)
             | Some tokens \<Rightarrow>
                 (case (r_access_token tokens, r_refresh_token tokens) of
                    (Some a, Some r) \<Rightarrow>
                      (case env_file_write out log1 a r of
                         Some e \<Rightarrow> (Inl e, log1 @ [SaveEnvCall a r])
                       | None \<Rightarrow>
                           (Inr \<lparr> access_token = a, refresh_token = r \<rparr>,
                            log1 @ [SaveEnvCall a r]))
                  | _ \<Rightarrow> (Inl KeyError, log1)))
          else (Inl ValueError, log1))"

definition refresh_locked ::
  "outside \<Rightarrow> http_call list \<Rightarrow> string \<Rightarrow> (py_exn + token_pair) \<times> http_call list" where
  "refresh_locked out log rtok =
     refresh_finish out (log @ [RefreshCall rtok]) (token_endpoint out log rtok)"

text \<open>\<^verbatim>\<open>refresh_access_token\<close> called alone: the lock is free and is taken at once.\<close>

definition refresh_access_token ::
  "outside \<Rightarrow> http_call list \<Rightarrow> string \<Rightarrow> (py_exn + token_pair) \<times> http_call list" where
  "refresh_access_token out log rtok =
     (if rtok = [] then (Inl ValueError, log) else refresh_locked out log rtok)"

text \<open>\<^verbatim>\<open>get_valid_access_token\<close>, lines 278-306.\<close>

definition get_valid_access_token ::
  "outside \<Rightarrow> http_call list \<Rightarrow> string \<Rightarrow> string \<Rightarrow> (py_exn + string) \<times> http_call list" where
  "get_valid_access_token out log current_access_token current_refresh_token =
     (case validate_token out log current_access_token of
        (None, log1) \<Rightarrow>
          (case refresh_access_token out log1 current_refresh_token of
             (Inl e, log2) \<Rightarrow> (Inl e, log2)
           | (Inr new_tokens, log2) \<Rightarrow> (Inr (access_token new_tokens), log2))
      | (Some validation, log1) \<Rightarrow>
          (case v_expires_in validation of
             None \<Rightarrow> (Inr current_access_token, log1)
           | Some expires_in \<Rightarrow>
               if expires_in < 600 then
                 (case refresh_access_token out log1 current_refresh_token of
                    (Inl e, log2) \<Rightarrow> (Inr current_access_token, log2)
                  | (Inr new_tokens, log2) \<Rightarrow> (Inr (access_token new_tokens), log2))
               else (Inr current_access_token, log1)))"

text \<open>An outside that gives the same two answers whatever was called before.\<close>

definition fixed_outside ::
  "validation http_result \<Rightarrow> token_response http_result \<Rightarrow> outside" where
  "fixed_outside v t =
     \<lparr> validate_endpoint = (\<lambda>log tok. v), token_endpoint = (\<lambda>log rtok. t),
       env_file_write = (\<lambda>log a r. None) \<rparr>"

definition sample_validation :: "int \<Rightarrow> validation" where
  "sample_validation n =
     \<lparr> v_client_id = Some ''cid'', v_login = Some ''bob'',
       v_scopes = Some [''chat:read''], v_user_id = Some ''42'', v_expires_in = Some n \<rparr>"

section \<open>Concurrent callers of the token manager\<close>

text \<open>
  Several coroutines call \<^verbatim>\<open>get_valid_access_token\<close> on one event loop. A coroutine runs
  until it waits: for the answer to its GET, for the lock of \<^verbatim>\<open>refresh_access_token\<close>, or
  for the answer to its POST. A task records where its call stands; the mode says what
  the caller does with the outcome of the refresh (line 284: let it through, lines
  294-302: fall back to the current token).
\<close>

datatype refresh_mode = Propagate | Fallback string

datatype task =
  Start string string
  | AwaitValidate string string "validation http_result"
  | NeedRefresh string refresh_mode
  | AwaitRefresh "token_response http_result" refresh_mode
  | Done "py_exn + string"

record event_loop =
  tasks :: "task list"
  lock_held :: bool
  call_log :: "http_call list"

definition after_refresh :: "refresh_mode \<Rightarrow> py_exn + token_pair \<Rightarrow> py_exn + string" where
  "after_refresh mode res =
     (case res of
        Inr new_tokens \<Rightarrow> Inr (access_token new_tokens)
      | Inl e \<Rightarrow> (case mode of Propagate \<Rightarrow> Inl e | Fallback current \<Rightarrow> Inr current))"

definition after_validate :: "string \<Rightarrow> string \<Rightarrow> validation option \<Rightarrow> task" where
  "after_validate current_access_token current_refresh_token validation =
     (case validation of
        None \<Rightarrow> NeedRefresh current_refresh_token Propagate
      | Some v \<Rightarrow>
          (case v_expires_in v of
             None \<Rightarrow> Done (Inr current_access_token)
           | Some expires_in \<Rightarrow>
               if expires_in < 600
               then NeedRefresh current_refresh_token (Fallback current_access_token)
               else Done (Inr current_access_token)))"

text \<open>
  One turn of the event loop for task \<open>i\<close>. A task that waits for a lock another task
  holds stays where it is; the lock is taken together with the POST and released when the
  refresh is over.
\<close>

definition step :: "outside \<Rightarrow> event_loop \<Rightarrow> nat \<Rightarrow> event_loop" where
  "step out s i =
     (if i \<ge> length (tasks s) then s
      else case tasks s ! i of
        Start a r \<Rightarrow>
          if a = [] then s\<lparr>tasks := (tasks s)[i := after_validate a r None]\<rparr>
          else s\<lparr>tasks := (tasks s)[i := AwaitValidate a r (validate_endpoint out (call_log s) a)],
                 call_log := call_log s @ [ValidateCall a]\<rparr>
      | AwaitValidate a r response \<Rightarrow>
          s\<lparr>tasks := (tasks s)[i := after_validate a r
                 (case validate_response response of Inl e \<Rightarrow> None | Inr v \<Rightarrow> v)]\<rparr>
      | NeedRefresh r mode \<Rightarrow>
          if r = [] then s\<lparr>tasks := (tasks s)[i := Done (after_refresh mode (Inl ValueError))]\<rparr>
          else if lock_held s then s
          else s\<lparr>tasks := (tasks s)[i := AwaitRefresh (token_endpoint out (call_log s) r) mode],
                 lock_held := True,
                 call_log := call_log s @ [RefreshCall r]\<rparr>
      | AwaitRefresh response mode \<Rightarrow>
          (case refresh_finish out (call_log s) response of
             (res, log') \<Rightarrow>
               s\<lparr>tasks := (tasks s)[i := Done (after_refresh mode res)],
                 lock_held := False,
                 call_log := log'\<rparr>)
      | Done res \<Rightarrow> s)"

definition run :: "outside \<Rightarrow> event_loop \<Rightarrow> nat list \<Rightarrow> event_loop" where
  "run out s schedule = foldl (step out) s schedule"

definition refresh_calls :: "http_call list \<Rightarrow> nat" where
  "refresh_calls log = length (filter (\<lambda>c. case c of RefreshCall r \<Rightarrow> True | _ \<Rightarrow> False) log)"

text \<open>
  The platform with an expired access token and a refresh token \<^verbatim>\<open>r0\<close> that is good for
  one refresh: validation answers 401, the first POST with \<^verbatim>\<open>r0\<close> is answered with a new
  pair, any later one with 400.
\<close>

definition rotating_outside :: outside where
  "rotating_outside =
     \<lparr> validate_endpoint = (\<lambda>log tok. HttpResponse 401 None),
       token_endpoint = (\<lambda>log rtok.
         if rtok = ''r0'' \<and> RefreshCall ''r0'' \<notin> set log
         then HttpResponse 200 (Some \<lparr> r_access_token = Some ''a1'', r_refresh_token = Some ''r1'' \<rparr>)
         else HttpResponse 400 None),
       env_file_write = (\<lambda>log a r. None) \<rparr>"

definition two_callers :: event_loop where
  "two_callers =
     \<lparr> tasks = [Start ''a0'' ''r0'', Start ''a0'' ''r0''], lock_held = False, call_log = [] \<rparr>"

section \<open>The database manager\<close>

text \<open>
  A table is the list of its rows in insertion order. Of the columns only the primary
  key, the dedup key and the columns declared \<^verbatim>\<open>nullable=False\<close> in \<^verbatim>\<open>models.py\<close> are kept,
  with one payload column; a \<open>None\<close> is the Python \<^verbatim>\<open>None\<close> (SQL \<^verbatim>\<open>NULL\<close>). A commit that
  violates a constraint raises \<^verbatim>\<open>IntegrityError\<close> and leaves the table as it was.
\<close>

record chat_message =
  cm_id :: "string option"
  cm_stream_id :: "string option"
  cm_broadcaster_user_id :: "string option"
  cm_chatter_user_id :: "string option"
  cm_message_text :: string

record deleted_event =
  de_stream_id :: "string option"
  de_broadcaster_user_id :: "string option"
  de_message_id :: "string option"
  de_target_user_name :: "string option"

record banned_event =
  be_stream_id :: "string option"
  be_broadcaster_user_id :: "string option"
  be_user_id :: "string option"
  be_is_permanent :: bool

record unbanned_event =
  ue_stream_id :: "string option"
  ue_broadcaster_user_id :: "string option"
  ue_user_id :: "string option"

text \<open>
  \<^verbatim>\<open>save_chat_message\<close>, lines 57-69: \<^verbatim>\<open>filter_by(id=...).first()\<close>, then the insert. A
  filter on \<^verbatim>\<open>None\<close> is \<^verbatim>\<open>IS NULL\<close> and finds no row of a primary-key column.
\<close>

definition save_chat_message ::
  "chat_message list \<Rightarrow> chat_message \<Rightarrow> (py_exn + chat_message) \<times> chat_message list" where
  "save_chat_message tbl message_data =
     (case (if cm_id message_data = None then None
            else find (\<lambda>row. cm_id row = cm_id message_data) tbl) of
        Some existing \<Rightarrow> (Inr existing, tbl)
      | None \<Rightarrow>
          if cm_id message_data = None \<or> cm_stream_id message_data = None
             \<or> cm_broadcaster_user_id message_data = None
             \<or> cm_chatter_user_id message_data = None
          then (Inl IntegrityError, tbl)
          else (Inr message_data, tbl @ [message_data]))"

text \<open>Saving one event after the other, as the handlers do; a failed save is skipped.\<close>

fun save_chat_messages ::
  "chat_message list \<Rightarrow> chat_message list \<Rightarrow> (py_exn + chat_message) list \<times> chat_message list" where
  "save_chat_messages tbl [] = ([], tbl)"
| "save_chat_messages tbl (m # ms) =
     (case save_chat_message tbl m of
        (r, tbl1) \<Rightarrow> (case save_chat_messages tbl1 ms of (rs, tbl2) \<Rightarrow> (r # rs, tbl2)))"

text \<open>
  \<^verbatim>\<open>save_deleted_event\<close>, lines 101-116. The rows carry an autoincrement key; the lookup
  is on \<^verbatim>\<open>message_id\<close>.
\<close>

definition next_id :: "(nat \<times> 'a) list \<Rightarrow> nat" where
  "next_id tbl = Suc (fold max (map fst tbl) 0)"

definition save_deleted_event ::
  "(nat \<times> deleted_event) list \<Rightarrow> deleted_event
     \<Rightarrow> (py_exn + nat \<times> deleted_event) \<times> (nat \<times> deleted_event) list" where
  "save_deleted_event tbl event_data =
     (case (if de_message_id event_data = None then None
            else find (\<lambda>row. de_message_id (snd row) = de_message_id event_data) tbl) of
        Some existing \<Rightarrow> (Inr existing, tbl)
      | None \<Rightarrow>
          if de_message_id event_data = None \<or> de_broadcaster_user_id event_data = None
          then (Inl IntegrityError, tbl)
          else (Inr (next_id tbl, event_data), tbl @ [(next_id tbl, event_data)]))"

fun save_deleted_events ::
  "(nat \<times> deleted_event) list \<Rightarrow> deleted_event list \<Rightarrow> (nat \<times> deleted_event) list" where
  "save_deleted_events tbl [] = tbl"
| "save_deleted_events tbl (d # ds) = save_deleted_events (snd (save_deleted_event tbl d)) ds"

text \<open>\<^verbatim>\<open>save_banned_event\<close> and \<^verbatim>\<open>save_unbanned_event\<close>: a plain insert.\<close>

definition save_banned_event ::
  "(nat \<times> banned_event) list \<Rightarrow> banned_event
     \<Rightarrow> (py_exn + nat \<times> banned_event) \<times> (nat \<times> banned_event) list" where
  "save_banned_event tbl event_data =
     (if be_broadcaster_user_id event_data = None \<or> be_user_id event_data = None
      then (Inl IntegrityError, tbl)
      else (Inr (next_id tbl, event_data), tbl @ [(next_id tbl, event_data)]))"

definition save_unbanned_event ::
  "(nat \<times> unbanned_event) list \<Rightarrow> unbanned_event
     \<Rightarrow> (py_exn + nat \<times> unbanned_event) \<times> (nat \<times> unbanned_event) list" where
  "save_unbanned_event tbl event_data =
     (if ue_broadcaster_user_id event_data = None \<or> ue_user_id event_data = None
      then (Inl IntegrityError, tbl)
      else (Inr (next_id tbl, event_data), tbl @ [(next_id tbl, event_data)]))"

text \<open>Two events for the concrete runs below.\<close>

definition sample_chat_message :: "string \<Rightarrow> chat_message" where
  "sample_chat_message text =
     \<lparr> cm_id = Some ''m-1'', cm_stream_id = Some ''s-1'', cm_broadcaster_user_id = Some ''10'',
       cm_chatter_user_id = Some ''20'', cm_message_text = text \<rparr>"

definition sample_deleted_event :: deleted_event where
  "sample_deleted_event =
     \<lparr> de_stream_id = Some ''s-1'', de_broadcaster_user_id = Some ''10'',
       de_message_id = Some ''m-1'', de_target_user_name = Some ''bob'' \<rparr>"

section \<open>The collector\<close>

text \<open>
  What \<^verbatim>\<open>TwitchAPIClient.get_streams\<close> hands back for one stream; every value comes from
  \<^verbatim>\<open>dict.get\<close> and may be \<^verbatim>\<open>None\<close>.
\<close>

record stream_info =
  si_stream_id :: "string option"
  si_user_id :: "string option"
  si_user_login :: "string option"
  si_user_name :: "string option"
  si_title :: "string option"

text \<open>
  \<^verbatim>\<open>save_stream\<close>, lines 29-46: update the row with that stream id or insert a new one.
  The columns \<^verbatim>\<open>stream_id\<close>, \<^verbatim>\<open>user_id\<close> and \<^verbatim>\<open>user_login\<close> must not be \<^verbatim>\<open>NULL\<close>.
\<close>

definition save_stream :: "stream_info list \<Rightarrow> stream_info \<Rightarrow> py_exn option \<times> stream_info list" where
  "save_stream tbl stream_data =
     (if si_stream_id stream_data = None \<or> si_user_id stream_data = None
         \<or> si_user_login stream_data = None
      then (Some IntegrityError, tbl)
      else (case find (\<lambda>row. si_stream_id row = si_stream_id stream_data) tbl of
              Some existing \<Rightarrow>
                (None, map (\<lambda>row. if si_stream_id row = si_stream_id stream_data
                                   then stream_data else row) tbl)
            | None \<Rightarrow> (None, tbl @ [stream_data])))"

text \<open>
  The state of a \<^verbatim>\<open>TwitchChatCollector\<close>: the dictionary \<^verbatim>\<open>channel_streams\<close> (a channel
  may be absent, or present with \<^verbatim>\<open>None\<close>), the tables of the database, and the list of
  the channels \<^verbatim>\<open>get_streams\<close> was asked about.
\<close>

record collector =
  channel_streams :: "string option \<rightharpoonup> string option"
  polls :: "string option list"
  streams :: "stream_info list"
  chat_messages :: "chat_message list"
  deleted_events :: "(nat \<times> deleted_event) list"
  banned_events :: "(nat \<times> banned_event) list"
  unbanned_events :: "(nat \<times> unbanned_event) list"

text \<open>\<^verbatim>\<open>dict.get(key)\<close> and the truth value of its result in \<^verbatim>\<open>if stream_id:\<close>.\<close>

definition streams_get :: "(string option \<rightharpoonup> string option) \<Rightarrow> string option \<Rightarrow> string option" where
  "streams_get cs user_id = (case cs user_id of None \<Rightarrow> None | Some v \<Rightarrow> v)"

definition truthy :: "string option \<Rightarrow> bool" where
  "truthy v = (case v of None \<Rightarrow> False | Some s \<Rightarrow> s \<noteq> [])"

text \<open>
  \<^verbatim>\<open>update_stream_status\<close>, lines 255-277. The polling collaborator is a parameter: for a
  channel it returns the list of live streams or raises.
\<close>

definition update_stream_status ::
  "(string option \<Rightarrow> py_exn + stream_info list) \<Rightarrow> collector \<Rightarrow> string option
     \<Rightarrow> py_exn option \<times> collector" where
  "update_stream_status get_streams st user_id =
     (let st1 = st\<lparr>polls := polls st @ [user_id]\<rparr> in
      case get_streams user_id of
        Inl e \<Rightarrow> (Some e, st1)
      | Inr [] \<Rightarrow>
          (None,
           if truthy (streams_get (channel_streams st1) user_id)
           then st1\<lparr>channel_streams := (channel_streams st1)(user_id \<mapsto> None)\<rparr>
           else st1)
      | Inr (stream_info # rest) \<Rightarrow>
          (case save_stream (streams st1) stream_info of
             (Some e, tbl) \<Rightarrow> (Some e, st1)
           | (None, tbl) \<Rightarrow>
               (None,
                st1\<lparr>streams := tbl,
                    channel_streams :=
                      (channel_streams st1)(user_id \<mapsto> si_stream_id stream_info)\<rparr>)))"

text \<open>
  What a handler did with an event: it was handed to the database and stored, it was
  skipped with a warning because no stream id is known, or an exception was caught and
  logged.
\<close>

datatype handled = Persisted | Skipped | Failed py_exn

text \<open>\<^verbatim>\<open>_handle_message\<close>, lines 279-314.\<close>

definition handle_message ::
  "(string option \<Rightarrow> py_exn + stream_info list) \<Rightarrow> collector \<Rightarrow> chat_message
     \<Rightarrow> handled \<times> collector" where
  "handle_message get_streams st event =
     (let broadcaster_user_id = cm_broadcaster_user_id event;
          store = (\<lambda>st' stream_id.
            case save_chat_message (chat_messages st') (event\<lparr>cm_stream_id := stream_id\<rparr>) of
              (Inl e, tbl) \<Rightarrow> (Failed e, st')
            | (Inr row, tbl) \<Rightarrow> (Persisted, st'\<lparr>chat_messages := tbl\<rparr>))
      in if truthy (streams_get (channel_streams st) broadcaster_user_id)
         then store st (streams_get (channel_streams st) broadcaster_user_id)
         else (case update_stream_status get_streams st broadcaster_user_id of
                 (Some e, st1) \<Rightarrow> (Failed e, st1)
               | (None, st1) \<Rightarrow>
                   if truthy (streams_get (channel_streams st1) broadcaster_user_id)
                   then store st1 (streams_get (channel_streams st1) broadcaster_user_id)
                   else (Skipped, st1)))"

text \<open>\<^verbatim>\<open>_handle_delete\<close>, lines 316-343.\<close>

definition handle_delete ::
  "(string option \<Rightarrow> py_exn + stream_info list) \<Rightarrow> collector \<Rightarrow> deleted_event
     \<Rightarrow> handled \<times> collector" where
  "handle_delete get_streams st event =
     (let broadcaster_user_id = de_broadcaster_user_id event;
          stream_id = streams_get (channel_streams st) broadcaster_user_id
      in if truthy stream_id
         then (case save_deleted_event (deleted_events st) (event\<lparr>de_stream_id := stream_id\<rparr>) of
                 (Inl e, tbl) \<Rightarrow> (Failed e, st)
               | (Inr row, tbl) \<Rightarrow> (Persisted, st\<lparr>deleted_events := tbl\<rparr>))
         else (Skipped, st))"

text \<open>\<^verbatim>\<open>_handle_ban\<close>, lines 345-374.\<close>

definition handle_ban ::
  "(string option \<Rightarrow> py_exn + stream_info list) \<Rightarrow> collector \<Rightarrow> banned_event
     \<Rightarrow> handled \<times> collector" where
  "handle_ban get_streams st event =
     (let broadcaster_user_id = be_broadcaster_user_id event;
          stream_id = streams_get (channel_streams st) broadcaster_user_id
      in if truthy stream_id
         then (case save_banned_event (banned_events st) (event\<lparr>be_stream_id := stream_id\<rparr>) of
                 (Inl e, tbl) \<Rightarrow> (Failed e, st)
               | (Inr row, tbl) \<Rightarrow> (Persisted, st\<lparr>banned_events := tbl\<rparr>))
         else (Skipped, st))"

text \<open>\<^verbatim>\<open>_handle_unban\<close>, lines 376-403.\<close>

definition handle_unban ::
  "(string option \<Rightarrow> py_exn + stream_info list) \<Rightarrow> collector \<Rightarrow> unbanned_event
     \<Rightarrow> handled \<times> collector" where
  "handle_unban get_streams st event =
     (let broadcaster_user_id = ue_broadcaster_user_id event;
          stream_id = streams_get (channel_streams st) broadcaster_user_id
      in if truthy stream_id
         then (case save_unbanned_event (unbanned_events st) (event\<lparr>ue_stream_id := stream_id\<rparr>) of
                 (Inl e, tbl) \<Rightarrow> (Failed e, st)
               | (Inr row, tbl) \<Rightarrow> (Persisted, st\<lparr>unbanned_events := tbl\<rparr>))
         else (Skipped, st))"

text \<open>
  A collector that joined channel 10 while it was offline, and a polling collaborator
  that now reports the channel live with stream \<^verbatim>\<open>s-1\<close>.
\<close>

definition offline_collector :: collector where
  "offline_collector =
     \<lparr> channel_streams = [Some ''10'' \<mapsto> None], polls = [], streams = [],
       chat_messages = [], deleted_events = [], banned_events = [], unbanned_events = [] \<rparr>"

definition live_stream :: stream_info where
  "live_stream =
     \<lparr> si_stream_id = Some ''s-1'', si_user_id = Some ''10'', si_user_login = Some ''alice'',
       si_user_name = Some ''Alice'', si_title = Some ''live'' \<rparr>"

definition now_live :: "string option \<Rightarrow> py_exn + stream_info list" where
  "now_live user_id = (if user_id = Some ''10'' then Inr [live_stream] else Inr [])"

section \<open>The IRC client: keepalive\<close>

text \<open>
  \<^verbatim>\<open>TwitchIRCClient._handle_message\<close>, lines 216-221: a message that starts with
  \<^verbatim>\<open>PING\<close> is answered with \<^verbatim>\<open>message.replace('PING', 'PONG')\<close> and nothing else is
  done with it. \<open>handle_ping\<close> returns the line that is sent, or \<open>None\<close> when the message
  is not a ping and falls through to the other branches.
\<close>

definition handle_ping :: "string \<Rightarrow> string option" where
  "handle_ping message =
     (if startswith message ''PING'' then Some (py_replace ''PING'' ''PONG'' message)
      else None)"

text \<open>
  What the keepalive rule asks for: the answer is \<^verbatim>\<open>PONG\<close> followed by whatever followed
  \<^verbatim>\<open>PING\<close> in the request.
\<close>

definition pong_same_payload :: "string \<Rightarrow> string" where
  "pong_same_payload message = ''PONG'' @ drop 4 message"

section \<open>Properties\<close>

lemma py_replace_absent:
  "\<not> str_contains old s \<Longrightarrow> py_replace old new s = s"
  by (induction s) auto

lemma handle_ping_unfold:
  "startswith message ''PING'' \<Longrightarrow>
     handle_ping message = Some (''PONG'' @ py_replace ''PING'' ''PONG'' (drop 4 message))"
  by (cases message) (auto simp: handle_ping_def startswith_def eval_nat_numeral)

text \<open>
  C7. For every server PING line the client answers with a PONG line carrying the same
  payload. The global replace also rewrites a \<^verbatim>\<open>PING\<close> that occurs inside the payload:
  the line \<^verbatim>\<open>PING :PING-7\<close> is answered with \<^verbatim>\<open>PONG :PONG-7\<close>, which is not the line
  with the identical payload, \<^verbatim>\<open>PONG :PING-7\<close>.
\<close>

theorem handle_ping_rewrites_payload:
  "handle_ping ''PING :PING-7'' = Some ''PONG :PONG-7'' \<and>
   pong_same_payload ''PING :PING-7'' = ''PONG :PING-7'' \<and>
   handle_ping ''PING :PING-7'' \<noteq> Some (pong_same_payload ''PING :PING-7'')"
  by (simp add: handle_ping_def pong_same_payload_def startswith_def)

lemma str_contains_hd_in_set:
  "str_contains (a # p) s \<Longrightarrow> a \<in> set s"
  by (induction s) (auto simp: startswith_def)

lemma unescape_no_backslash:
  "backslash \<notin> set v \<Longrightarrow> unescape v = v"
  unfolding unescape_def
  by (metis py_replace_absent str_contains_hd_in_set)

text \<open>
  C3. Decoding a tag string turns \<^verbatim>\<open>\s\<close> into a space, \<^verbatim>\<open>\:\<close> into a semicolon and
  \<^verbatim>\<open>\\\<close> into a backslash, and leaves every unescaped character alone. The three
  chained replacements do not: in the value \<^verbatim>\<open>C:\\sys\<close> (the escaped form of
  \<^verbatim>\<open>C:\sys\<close>) the first pass already takes the second backslash and the \<^verbatim>\<open>s\<close> for the
  escape of a space, so the stored value is \<^verbatim>\<open>C:\ ys\<close>.
\<close>

theorem parse_tags_escaped_backslash_then_s:
  "parse_tags (''@id=7;reply-parent-msg-body=C:'' @ [backslash, backslash] @
               ''sys :bob!bob@bob.tmi.twitch.tv PRIVMSG #chan :hi'')
     ''reply-parent-msg-body'' = Some (''C:'' @ [backslash] @ '' ys'') \<and>
   unescape_spec (''C:'' @ [backslash, backslash] @ ''sys'') = ''C:'' @ [backslash] @ ''sys''"
  by (simp add: parse_tags_def tag_pattern_match_def parse_tag_def unescape_def
      startswith_def)

lemma is_digit_not_space: "is_digit c \<Longrightarrow> \<not> int_isspace c"
  by (auto simp: is_digit_def int_isspace_def)

lemma is_digit_not_sign: "is_digit c \<Longrightarrow> c \<noteq> CHR ''-'' \<and> c \<noteq> CHR ''+'' \<and> c \<noteq> CHR ''_''"
  by (auto simp: is_digit_def)

lemma int_strip_digits:
  assumes "v \<noteq> []" "\<forall>c \<in> set v. is_digit c"
  shows "rev (dropWhile int_isspace (rev (dropWhile int_isspace v))) = v"
proof -
  from assms have a: "dropWhile int_isspace v = v"
    by (cases v) (auto simp: is_digit_not_space)
  from assms have "rev v \<noteq> []" "\<not> int_isspace (hd (rev v))"
    by (auto simp: hd_rev is_digit_not_space)
  then have "dropWhile int_isspace (rev v) = rev v"
    by (cases "rev v") auto
  with a show ?thesis by simp
qed

lemma int_digits_all:
  "v \<noteq> [] \<Longrightarrow> \<forall>c \<in> set v. is_digit c \<Longrightarrow> int_digits v"
  by (induction v rule: int_digits.induct) (auto simp: is_digit_not_sign)

lemma py_int_digits:
  assumes "v \<noteq> []" "\<forall>c \<in> set v. is_digit c" "length v \<le> int_max_str_digits"
  shows "py_int v \<noteq> None"
proof -
  from assms have "is_digit (hd v)" by (cases v) auto
  then have "hd v \<noteq> CHR ''-''" "hd v \<noteq> CHR ''+''"
    using is_digit_not_sign by blast+
  moreover from assms(2) have "filter is_digit v = v" by simp
  ultimately show ?thesis
    using assms
    by (simp add: py_int_def int_strip_digits int_digits_all Let_def)
qed

lemma takeWhile_all: "c \<notin> set xs \<Longrightarrow> takeWhile (\<lambda>x. x \<noteq> c) xs = xs"
  by (induction xs) auto

lemma dropWhile_all: "c \<notin> set xs \<Longrightarrow> dropWhile (\<lambda>x. x \<noteq> c) xs = []"
  by (induction xs) auto

lemma clearchat_search_skip:
  "CHR ''C'' \<notin> set pre \<Longrightarrow> clearchat_search (pre @ CHR ''C'' # s) = clearchat_search (CHR ''C'' # s)"
  by (induction pre) (auto simp: clearchat_match_at_def startswith_def)

lemma clearchat_channel_wide_shape:
  assumes "CHR ''C'' \<notin> set pre" "chan \<noteq> []" "CHR '' '' \<notin> set chan"
  shows "clearchat_search (pre @ ''CLEARCHAT #'' @ chan) = Some (chan, None)"
proof -
  have "clearchat_search (pre @ ''CLEARCHAT #'' @ chan) = clearchat_search (''CLEARCHAT #'' @ chan)"
    using clearchat_search_skip [OF assms(1)] by simp
  also have "\<dots> = Some (chan, None)"
    using assms(2,3)
    by (simp add: clearchat_match_at_def clearchat_target_def startswith_def
        takeWhile_all dropWhile_all)
  finally show ?thesis .
qed

text \<open>
  C10. A CLEARCHAT line that names no target user (a channel-wide clear) produces no ban
  event and calls no callback: the handler only logs the channel. This holds whenever the
  pattern of \<^verbatim>\<open>_handle_clearchat\<close> finds no second group; lemma
  \<open>clearchat_channel_wide_shape\<close> shows that lines ending in the channel name are of
  this kind.
\<close>

theorem clearchat_without_target_is_ignored:
  assumes "clearchat_search message = Some (channel, None)"
  shows "handle_clearchat clk on_ban message = ChannelCleared channel
         \<and> (\<forall>e. handle_clearchat clk on_ban message \<noteq> BanCallback e)"
  using assms by (simp add: handle_clearchat_def)

theorem clearchat_without_target_is_ignored_witness:
  "clearchat_search ''@room-id=12345;tmi-sent-ts=1642715695392 :tmi.twitch.tv CLEARCHAT #dallas''
     = Some (''dallas'', None)
   \<and> handle_clearchat sample_clock True
        ''@room-id=12345;tmi-sent-ts=1642715695392 :tmi.twitch.tv CLEARCHAT #dallas''
     = ChannelCleared ''dallas''"
proof -
  have h: "clearchat_search
      ''@room-id=12345;tmi-sent-ts=1642715695392 :tmi.twitch.tv CLEARCHAT #dallas''
     = Some (''dallas'', None)"
    by (simp add: clearchat_match_at_def clearchat_target_def startswith_def)
  from clearchat_without_target_is_ignored [OF h, of sample_clock True] h
  show ?thesis by simp
qed

text \<open>
  What decides the classification in \<^verbatim>\<open>_handle_clearchat\<close>: an event handed to the callback
  is permanent exactly when \<^verbatim>\<open>_parse_int\<close> finds no integer in the \<^verbatim>\<open>ban-duration\<close> tag.
  An absent tag gives a permanent ban; a tag whose value is a non-empty string of at
  most 4300 decimal digits gives a timeout.
\<close>

lemma clearchat_permanent_iff_no_duration_value:
  assumes "handle_clearchat clk on_ban message = BanCallback e"
  shows "(ban_is_permanent e \<longleftrightarrow> parse_int (parse_tags message ''ban-duration'') = None)
       \<and> (parse_tags message ''ban-duration'' = None \<longrightarrow> ban_is_permanent e)
       \<and> (\<forall>v. parse_tags message ''ban-duration'' = Some v \<and> v \<noteq> []
                \<and> (\<forall>c \<in> set v. is_digit c) \<and> length v \<le> int_max_str_digits
              \<longrightarrow> \<not> ban_is_permanent e)"
proof -
  from assms have p: "ban_is_permanent e \<longleftrightarrow> parse_int (parse_tags message ''ban-duration'') = None"
    by (auto simp: handle_clearchat_def Let_def split: option.splits if_splits sum.splits)
  moreover have "\<not> ban_is_permanent e"
    if "parse_tags message ''ban-duration'' = Some v" "v \<noteq> []" "\<forall>c \<in> set v. is_digit c"
      "length v \<le> int_max_str_digits" for v
    using that p py_int_digits [of v] by simp
  ultimately show ?thesis by auto
qed

lemma clearchat_numeric_duration_is_timeout:
  "handle_clearchat sample_clock True
     ''@ban-duration=600;room-id=1;target-user-id=2 :tmi.twitch.tv CLEARCHAT #chan :bob''
   = BanCallback
      \<lparr> ban_broadcaster_user_id = Some ''1'', ban_broadcaster_user_login = ''chan'',
        ban_broadcaster_user_name = ''chan'', ban_user_id = Some ''2'',
        ban_user_login = ''bob'', ban_user_name = ''bob'',
        ban_moderator_user_id = None, ban_moderator_user_login = None,
        ban_moderator_user_name = None, ban_reason = [],
        ban_is_permanent = False, ban_ends_at = Some 1700000000000,
        ban_banned_at = 1700000000000 \<rparr>"
  by (simp add: handle_clearchat_def clearchat_match_at_def clearchat_target_def
      startswith_def parse_tags_def tag_pattern_match_def parse_tag_def unescape_def
      py_int_def int_isspace_def int_max_str_digits_def py_strip_def py_isspace_def
      is_digit_def parse_tmi_timestamp_def sample_clock_def digits_value_def)

text \<open>
  C8. A single-user moderation-clear is a permanent ban exactly when the
  \<^verbatim>\<open>ban-duration\<close> tag is absent and a timeout exactly when it is present; the comment at
  line 331 of \<^verbatim>\<open>twitch_irc.py\<close> states the same rule. The code decides on the parsed
  number instead of the tag: a clear whose \<^verbatim>\<open>ban-duration\<close> tag is present with the
  value \<^verbatim>\<open>10m\<close> is delivered as a permanent ban without an end.
\<close>

theorem clearchat_unparsable_duration_is_permanent:
  "handle_clearchat sample_clock True
     ''@ban-duration=10m;room-id=1;target-user-id=2 :tmi.twitch.tv CLEARCHAT #chan :bob''
   = BanCallback
      \<lparr> ban_broadcaster_user_id = Some ''1'', ban_broadcaster_user_login = ''chan'',
        ban_broadcaster_user_name = ''chan'', ban_user_id = Some ''2'',
        ban_user_login = ''bob'', ban_user_name = ''bob'',
        ban_moderator_user_id = None, ban_moderator_user_login = None,
        ban_moderator_user_name = None, ban_reason = [],
        ban_is_permanent = True, ban_ends_at = None, ban_banned_at = 1700000000000 \<rparr>
   \<and> parse_tags
        ''@ban-duration=10m;room-id=1;target-user-id=2 :tmi.twitch.tv CLEARCHAT #chan :bob''
        ''ban-duration'' = Some ''10m''"
  by (simp add: handle_clearchat_def clearchat_match_at_def clearchat_target_def
      startswith_def parse_tags_def tag_pattern_match_def parse_tag_def unescape_def
      py_int_def int_isspace_def int_max_str_digits_def py_strip_def py_isspace_def
      is_digit_def parse_tmi_timestamp_def sample_clock_def)

lemma of_char_lower_char:
  "(of_char (lower_char c) :: nat) =
     (if (65 \<le> (of_char c :: nat) \<and> (of_char c :: nat) \<le> 90)
         \<or> (192 \<le> (of_char c :: nat) \<and> (of_char c :: nat) \<le> 222 \<and> (of_char c :: nat) \<noteq> 215)
      then of_char c + 32 else of_char c)"
  by (simp add: lower_char_def Let_def)

lemma lower_char_eq_hash: "lower_char c = CHR ''#'' \<longleftrightarrow> c = CHR ''#''"
proof
  assume "lower_char c = CHR ''#''"
  then have "(of_char (lower_char c) :: nat) = 35" by simp
  then have "(of_char c :: nat) = 35"
    unfolding of_char_lower_char by (simp split: if_splits)
  then have "(of_char c :: nat) = of_char CHR ''#''" by simp
  then show "c = CHR ''#''" by (simp only: of_char_eq_iff)
next
  assume "c = CHR ''#''"
  then show "lower_char c = CHR ''#''" by (simp add: lower_char_def)
qed

lemma startswith_hash_lower:
  "startswith (py_lower name) ''#'' \<longleftrightarrow> startswith name ''#''"
  by (cases name) (simp_all add: startswith_def py_lower_def lower_char_eq_hash)

lemma normalize_channel_hash:
  "\<not> startswith name ''#'' \<Longrightarrow> normalize_channel (''#'' @ name) = normalize_channel name"
  by (simp add: normalize_channel_def startswith_def)

lemma normalize_channel_same_letters:
  "py_lower a = py_lower b \<Longrightarrow> normalize_channel a = normalize_channel b"
proof -
  assume e: "py_lower a = py_lower b"
  then have "startswith a ''#'' \<longleftrightarrow> startswith b ''#''"
    using startswith_hash_lower by metis
  with e show ?thesis
    by (auto simp: normalize_channel_def py_lower_def)
qed



text \<open>
  C1. \<^verbatim>\<open>get_valid_access_token\<close> validates the current access token first. When the
  validation reports the token invalid, it refreshes at once and returns the new access
  token (or fails as the refresh fails). When the validation succeeds with less than 600
  seconds left, it tries a refresh and returns the new access token, or the current token
  when the refresh raises. In every other case it returns the current token and makes no
  further call.
\<close>

theorem get_valid_access_token_paths:
  assumes "validate_token out log a = (v, log1)"
    and "refresh_access_token out log1 r = (res, log2)"
  shows "(v = None \<longrightarrow>
            get_valid_access_token out log a r = (map_sum id access_token res, log2))
       \<and> (\<forall>vd n. v = Some vd \<and> v_expires_in vd = Some n \<and> n < 600 \<longrightarrow>
            get_valid_access_token out log a r
              = (case res of Inl e \<Rightarrow> Inr a | Inr t \<Rightarrow> Inr (access_token t), log2))
       \<and> (\<forall>vd. v = Some vd \<and> (\<forall>n. v_expires_in vd = Some n \<longrightarrow> \<not> n < 600) \<longrightarrow>
            get_valid_access_token out log a r = (Inr a, log1))"
  using assms
  by (auto simp: get_valid_access_token_def split: option.splits sum.splits)

theorem get_valid_access_token_paths_witness:
  "validate_token (fixed_outside (HttpResponse 200 (Some (sample_validation 120)))
       (HttpResponse 503 None)) [] ''cur''
     = (Some (sample_validation 120), [ValidateCall ''cur''])
   \<and> refresh_access_token (fixed_outside (HttpResponse 200 (Some (sample_validation 120)))
       (HttpResponse 503 None)) [ValidateCall ''cur''] ''ref''
     = (Inl ValueError, [ValidateCall ''cur'', RefreshCall ''ref''])
   \<and> get_valid_access_token (fixed_outside (HttpResponse 200 (Some (sample_validation 120)))
       (HttpResponse 503 None)) [] ''cur'' ''ref''
     = (Inr ''cur'', [ValidateCall ''cur'', RefreshCall ''ref''])"
proof -
  let ?out = "fixed_outside (HttpResponse 200 (Some (sample_validation 120))) (HttpResponse 503 None)"
  have v: "validate_token ?out [] ''cur'' = (Some (sample_validation 120), [ValidateCall ''cur''])"
    by (simp add: validate_token_def validate_response_def fixed_outside_def
        sample_validation_def)
  have r: "refresh_access_token ?out [ValidateCall ''cur''] ''ref''
      = (Inl ValueError, [ValidateCall ''cur'', RefreshCall ''ref''])"
    by (simp add: refresh_access_token_def refresh_locked_def refresh_finish_def
        fixed_outside_def)
  have n: "v_expires_in (sample_validation 120) = Some 120"
    by (simp add: sample_validation_def)
  from get_valid_access_token_paths [OF v r] v r n show ?thesis by simp
qed

text \<open>
  C5, as the code has it. With a non-empty token, \<^verbatim>\<open>validate_token\<close> returns the
  validation result when the endpoint answers 200 with a body that grants
  \<^verbatim>\<open>chat:read\<close> and carries \<^verbatim>\<open>login\<close> and \<^verbatim>\<open>expires_in\<close>, and it returns a result
  only on such a 200. A 401, any other status code and a failed request all end in the
  same \<^verbatim>\<open>None\<close>: nothing is propagated.
\<close>

theorem validate_token_outcomes:
  assumes "tok \<noteq> []"
  shows "(\<forall>vd l. validate_endpoint out log tok = HttpResponse 200 (Some vd)
             \<and> v_scopes vd = Some l \<and> ''chat:read'' \<in> set l
             \<and> v_login vd \<noteq> None \<and> v_expires_in vd \<noteq> None
           \<longrightarrow> validate_token out log tok = (Some vd, log @ [ValidateCall tok]))
       \<and> (\<forall>status_code body. validate_endpoint out log tok = HttpResponse status_code body
             \<and> status_code \<noteq> 200
           \<longrightarrow> validate_token out log tok = (None, log @ [ValidateCall tok]))
       \<and> (validate_endpoint out log tok = RequestFailed
           \<longrightarrow> validate_token out log tok = (None, log @ [ValidateCall tok]))
       \<and> (\<forall>vd. fst (validate_token out log tok) = Some vd
           \<longrightarrow> validate_endpoint out log tok = HttpResponse 200 (Some vd))"
  using assms
  by (auto simp: validate_token_def validate_response_def Let_def
      split: http_result.splits option.splits if_splits)

theorem validate_token_outcomes_witness:
  "validate_token (fixed_outside (HttpResponse 200 (Some (sample_validation 3600))) RequestFailed)
      [] ''cur''
     = (Some (sample_validation 3600), [ValidateCall ''cur''])
   \<and> validate_token (fixed_outside (HttpResponse 503 None) RequestFailed) [] ''cur''
     = (None, [ValidateCall ''cur''])
   \<and> validate_token (fixed_outside RequestFailed RequestFailed) [] ''cur''
     = (None, [ValidateCall ''cur''])"
proof -
  have ne: "''cur'' \<noteq> []" by simp
  have a: "validate_endpoint (fixed_outside (HttpResponse 200 (Some (sample_validation 3600)))
        RequestFailed) [] ''cur'' = HttpResponse 200 (Some (sample_validation 3600))"
    and b: "validate_endpoint (fixed_outside (HttpResponse 503 None) RequestFailed) [] ''cur''
        = HttpResponse 503 None"
    and c: "validate_endpoint (fixed_outside RequestFailed RequestFailed) [] ''cur''
        = RequestFailed"
    by (simp_all add: fixed_outside_def)
  have s: "v_scopes (sample_validation 3600) = Some [''chat:read'']"
    "v_login (sample_validation 3600) \<noteq> None" "v_expires_in (sample_validation 3600) \<noteq> None"
    by (simp_all add: sample_validation_def)
  from validate_token_outcomes [OF ne, of "fixed_outside (HttpResponse 200 (Some (sample_validation 3600))) RequestFailed" "[]"]
    a s
  have 1: "validate_token (fixed_outside (HttpResponse 200 (Some (sample_validation 3600))) RequestFailed)
      [] ''cur'' = (Some (sample_validation 3600), [ValidateCall ''cur''])"
    by simp
  from validate_token_outcomes [OF ne, of "fixed_outside (HttpResponse 503 None) RequestFailed" "[]"] b
  have 2: "validate_token (fixed_outside (HttpResponse 503 None) RequestFailed) [] ''cur''
     = (None, [ValidateCall ''cur''])"
    by simp
  from validate_token_outcomes [OF ne, of "fixed_outside RequestFailed RequestFailed" "[]"] c
  have 3: "validate_token (fixed_outside RequestFailed RequestFailed) [] ''cur''
     = (None, [ValidateCall ''cur''])"
    by simp
  from 1 2 3 show ?thesis by simp
qed

text \<open>
  C5, as the claim states it, fails: a 503 and a failed request are answered with the
  very value that stands for an invalid token, and a 200 whose body lacks the required
  scope is answered with it too.
\<close>

theorem validate_token_server_error_reads_as_invalid:
  "validate_token (fixed_outside (HttpResponse 503 None) RequestFailed) [] ''cur''
     = (None, [ValidateCall ''cur''])
   \<and> validate_token (fixed_outside (HttpResponse 401 None) RequestFailed) [] ''cur''
     = (None, [ValidateCall ''cur''])
   \<and> validate_token (fixed_outside RequestFailed RequestFailed) [] ''cur''
     = (None, [ValidateCall ''cur''])
   \<and> validate_token
        (fixed_outside
           (HttpResponse 200 (Some ((sample_validation 3600)\<lparr>v_scopes := Some [''chat:edit'']\<rparr>)))
           RequestFailed) [] ''cur''
     = (None, [ValidateCall ''cur''])"
  by (simp add: validate_token_def validate_response_def fixed_outside_def
      sample_validation_def)

lemma find_same_key:
  "find (\<lambda>row. f row = k) tbl = Some r \<Longrightarrow> f r = k \<and> r \<in> set tbl"
  by (induction tbl) (auto split: if_splits)

lemma find_none_key:
  "find (\<lambda>row. f row = k) tbl = None \<Longrightarrow> k \<notin> f ` set tbl"
  by (induction tbl) (auto split: if_splits)

lemma find_append_new:
  "find P tbl = None \<Longrightarrow> P x \<Longrightarrow> find P (tbl @ [x]) = Some x"
  by (induction tbl) (auto split: if_splits)

lemma one_row_per_key:
  "distinct (map f tbl) \<Longrightarrow> r \<in> set tbl \<Longrightarrow> length (filter (\<lambda>row. f row = f r) tbl) = 1"
proof (induction tbl)
  case Nil
  then show ?case by simp
next
  case (Cons x xs)
  show ?case
  proof (cases "r = x")
    case True
    from Cons.prems(1) have "f x \<notin> f ` set xs" by simp
    then have "\<forall>y \<in> set xs. f y \<noteq> f x"
      by (metis image_eqI)
    then have "filter (\<lambda>row. f row = f x) xs = []"
      by (induction xs) simp_all
    with True show ?thesis by simp
  next
    case False
    with Cons.prems have "r \<in> set xs" "f x \<noteq> f r" by auto
    with Cons show ?thesis by simp
  qed
qed

lemma save_chat_message_found:
  assumes "save_chat_message tbl m = (Inr row, tbl1)"
  shows "cm_id m \<noteq> None \<and> find (\<lambda>r. cm_id r = cm_id m) tbl1 = Some row"
  using assms
  by (auto simp: save_chat_message_def find_append_new split: option.splits if_splits)

lemma save_chat_message_distinct:
  assumes "distinct (map cm_id tbl)" "save_chat_message tbl m = (res, tbl1)"
  shows "distinct (map cm_id tbl1)"
  using assms
  by (auto simp: save_chat_message_def split: option.splits if_splits dest: find_none_key)

lemma save_chat_message_again:
  assumes "find (\<lambda>r. cm_id r = k) tbl1 = Some row" "k \<noteq> None"
  shows "\<forall>m \<in> set ms. cm_id m = k \<Longrightarrow>
         save_chat_messages tbl1 ms = (replicate (length ms) (Inr row), tbl1)"
  using assms
  by (induction ms) (auto simp: save_chat_message_def)


lemma save_deleted_event_distinct:
  assumes "distinct (map (\<lambda>r. de_message_id (snd r)) tbl)"
  shows "distinct (map (\<lambda>r. de_message_id (snd r)) (snd (save_deleted_event tbl d)))"
proof (cases "de_message_id d = None")
  case True
  with assms show ?thesis by (simp add: save_deleted_event_def)
next
  case False
  show ?thesis
  proof (cases "find (\<lambda>row. de_message_id (snd row) = de_message_id d) tbl")
    case None
    then have "de_message_id d \<notin> (\<lambda>r. de_message_id (snd r)) ` set tbl"
      by (rule find_none_key)
    with assms None False show ?thesis
      by (simp add: save_deleted_event_def)
  next
    case (Some a)
    with assms False show ?thesis by (simp add: save_deleted_event_def)
  qed
qed

lemma save_deleted_events_distinct:
  "distinct (map (\<lambda>r. de_message_id (snd r)) tbl) \<Longrightarrow>
   distinct (map (\<lambda>r. de_message_id (snd r)) (save_deleted_events tbl ds))"
  by (induction ds arbitrary: tbl) (simp_all add: save_deleted_event_distinct)

lemma save_chat_message_valid:
  assumes "cm_id m = Some i" "cm_stream_id m \<noteq> None" "cm_broadcaster_user_id m \<noteq> None"
    "cm_chatter_user_id m \<noteq> None"
  shows "save_chat_message tbl m =
           (case find (\<lambda>row. cm_id row = Some i) tbl of
              Some existing \<Rightarrow> (Inr existing, tbl)
            | None \<Rightarrow> (Inr m, tbl @ [m]))"
  using assms by (simp add: save_chat_message_def split: option.splits)

lemma find_some_key:
  "k \<in> f ` set tbl \<Longrightarrow> find (\<lambda>row. f row = k) tbl \<noteq> None"
  by (induction tbl) auto

lemma save_deleted_event_valid:
  assumes "de_message_id d = Some j" "de_broadcaster_user_id d \<noteq> None"
  shows "Some j \<in> (\<lambda>r. de_message_id (snd r)) ` set (snd (save_deleted_event tbl d))"
proof (cases "find (\<lambda>row. de_message_id (snd row) = Some j) tbl")
  case None
  with assms show ?thesis by (auto simp: save_deleted_event_def)
next
  case (Some a)
  then have "de_message_id (snd a) = Some j \<and> a \<in> set tbl"
    by (rule find_same_key)
  with assms Some show ?thesis by (force simp: save_deleted_event_def)
qed

lemma save_deleted_event_keeps:
  "set tbl \<subseteq> set (snd (save_deleted_event tbl d))"
  by (auto simp: save_deleted_event_def split: option.splits)

lemma save_deleted_events_keeps:
  "set tbl \<subseteq> set (save_deleted_events tbl ds)"
proof (induction ds arbitrary: tbl)
  case Nil
  show ?case by simp
next
  case (Cons d ds)
  have "set tbl \<subseteq> set (snd (save_deleted_event tbl d))"
    by (rule save_deleted_event_keeps)
  also have "\<dots> \<subseteq> set (save_deleted_events (snd (save_deleted_event tbl d)) ds)"
    by (rule Cons.IH)
  finally show ?case by simp
qed

lemma save_deleted_events_one:
  assumes "distinct (map (\<lambda>r. de_message_id (snd r)) tbl)"
    and "de_message_id d = Some j" "de_broadcaster_user_id d \<noteq> None"
  shows "length (filter (\<lambda>r. de_message_id (snd r) = Some j) (save_deleted_events tbl (d # ds))) = 1"
proof -
  let ?f = "\<lambda>r. de_message_id (snd r)"
  let ?t1 = "snd (save_deleted_event tbl d)"
  from save_deleted_event_valid [OF assms(2,3), of tbl]
  obtain row where row: "row \<in> set ?t1" "?f row = Some j" by auto
  with save_deleted_events_keeps [of ?t1 ds]
  have in_final: "row \<in> set (save_deleted_events tbl (d # ds))" by auto
  have "distinct (map ?f (save_deleted_events tbl (d # ds)))"
    using save_deleted_events_distinct [OF assms(1)] by blast
  from one_row_per_key [OF this in_final] row(2) show ?thesis by simp
qed

text \<open>
  C6. Persisting chat events is idempotent on the dedup key. Take a table of chat
  messages whose ids are unique, and save an event that carries a message id and the
  columns the schema requires, followed by any number of further events carrying the same
  id (N saves in all). No save raises, every save returns one and the same stored record,
  and afterwards the table holds exactly one record with that id: the event itself, added
  at the end, when the id was new, and the table as it was when the id was already
  there. Likewise a table of deletions that holds at most one record per target message
  id still does so after any sequence of \<^verbatim>\<open>save_deleted_event\<close>, and it holds exactly one
  for the message id of a deletion that was saved.
\<close>

theorem save_is_idempotent_on_dedup_key:
  assumes "distinct (map cm_id tbl)"
    and "cm_id m = Some i" "cm_stream_id m \<noteq> None" "cm_broadcaster_user_id m \<noteq> None"
      "cm_chatter_user_id m \<noteq> None"
    and "\<forall>m' \<in> set ms. cm_id m' = Some i"
  shows "(\<exists>row tbl1.
            save_chat_messages tbl (m # ms) = (replicate (Suc (length ms)) (Inr row), tbl1)
            \<and> cm_id row = Some i
            \<and> length (filter (\<lambda>r. cm_id r = Some i) tbl1) = 1
            \<and> (Some i \<notin> cm_id ` set tbl \<longrightarrow> row = m \<and> tbl1 = tbl @ [m])
            \<and> (Some i \<in> cm_id ` set tbl \<longrightarrow> tbl1 = tbl))
       \<and> (\<forall>dtbl ds. distinct (map (\<lambda>r. de_message_id (snd r)) dtbl) \<longrightarrow>
             distinct (map (\<lambda>r. de_message_id (snd r)) (save_deleted_events dtbl ds)))
       \<and> (\<forall>dtbl d ds j. distinct (map (\<lambda>r. de_message_id (snd r)) dtbl)
               \<and> de_message_id d = Some j \<and> de_broadcaster_user_id d \<noteq> None \<longrightarrow>
             length (filter (\<lambda>r. de_message_id (snd r) = Some j)
                      (save_deleted_events dtbl (d # ds))) = 1)"
proof -
  note valid = save_chat_message_valid [OF assms(2-5), of tbl]
  obtain row tbl1 where sv: "save_chat_message tbl m = (Inr row, tbl1)"
    using valid by (cases "find (\<lambda>row. cm_id row = Some i) tbl") auto
  have new: "row = m \<and> tbl1 = tbl @ [m]" if "Some i \<notin> cm_id ` set tbl"
  proof -
    from that have "find (\<lambda>row. cm_id row = Some i) tbl = None"
      by (induction tbl) auto
    with valid sv show ?thesis by simp
  qed
  have old: "tbl1 = tbl" if "Some i \<in> cm_id ` set tbl"
  proof -
    from that have "find (\<lambda>row. cm_id row = Some i) tbl \<noteq> None"
      by (rule find_some_key)
    with valid sv show ?thesis by auto
  qed
  from sv have f: "find (\<lambda>r. cm_id r = cm_id m) tbl1 = Some row"
    using save_chat_message_found by blast
  then have r: "cm_id row = cm_id m" "row \<in> set tbl1"
    using find_same_key [of cm_id "cm_id m" tbl1 row] by simp_all
  from assms(1) sv have d: "distinct (map cm_id tbl1)"
    by (rule save_chat_message_distinct)
  have k: "cm_id m \<noteq> None" using assms(2) by simp
  have "\<forall>m' \<in> set ms. cm_id m' = cm_id m" using assms(2,6) by simp
  then have again: "save_chat_messages tbl1 ms = (replicate (length ms) (Inr row), tbl1)"
    using save_chat_message_again [OF f k] by blast
  have all: "save_chat_messages tbl (m # ms) = (replicate (Suc (length ms)) (Inr row), tbl1)"
    using sv again by simp
  have one: "length (filter (\<lambda>r. cm_id r = Some i) tbl1) = 1"
    using one_row_per_key [OF d r(2)] r(1) assms(2) by simp
  have chat: "\<exists>row tbl1.
            save_chat_messages tbl (m # ms) = (replicate (Suc (length ms)) (Inr row), tbl1)
            \<and> cm_id row = Some i
            \<and> length (filter (\<lambda>r. cm_id r = Some i) tbl1) = 1
            \<and> (Some i \<notin> cm_id ` set tbl \<longrightarrow> row = m \<and> tbl1 = tbl @ [m])
            \<and> (Some i \<in> cm_id ` set tbl \<longrightarrow> tbl1 = tbl)"
    using all one r(1) assms(2) new old by (intro exI [of _ row] exI [of _ tbl1]) simp
  show ?thesis
    using chat save_deleted_events_distinct save_deleted_events_one by blast
qed


theorem save_is_idempotent_on_dedup_key_witness:
  "save_chat_messages []
      [sample_chat_message ''hi'', sample_chat_message ''hi'', sample_chat_message ''hi again'']
     = ([Inr (sample_chat_message ''hi''), Inr (sample_chat_message ''hi''),
         Inr (sample_chat_message ''hi'')],
        [sample_chat_message ''hi''])
   \<and> length (filter (\<lambda>r. cm_id r = Some ''m-1'') [sample_chat_message ''hi'']) = 1
   \<and> save_deleted_events [] [sample_deleted_event, sample_deleted_event]
     = [(1, sample_deleted_event)]
   \<and> length (filter (\<lambda>r. de_message_id (snd r) = Some ''m-1'')
        [(1 :: nat, sample_deleted_event)]) = 1"
proof -
  have a: "distinct (map cm_id [])" by simp
  have v: "cm_id (sample_chat_message ''hi'') = Some ''m-1''"
    "cm_stream_id (sample_chat_message ''hi'') \<noteq> None"
    "cm_broadcaster_user_id (sample_chat_message ''hi'') \<noteq> None"
    "cm_chatter_user_id (sample_chat_message ''hi'') \<noteq> None"
    by (simp_all add: sample_chat_message_def)
  have c: "\<forall>m' \<in> set [sample_chat_message ''hi'', sample_chat_message ''hi again''].
             cm_id m' = Some ''m-1''"
    by (simp add: sample_chat_message_def)
  have b: "save_chat_messages []
      [sample_chat_message ''hi'', sample_chat_message ''hi'', sample_chat_message ''hi again'']
     = ([Inr (sample_chat_message ''hi''), Inr (sample_chat_message ''hi''),
         Inr (sample_chat_message ''hi'')],
        [sample_chat_message ''hi''])"
    by (simp add: save_chat_message_def sample_chat_message_def)
  have f: "length (filter (\<lambda>r. cm_id r = Some ''m-1'') [sample_chat_message ''hi'']) = 1"
    by (simp add: sample_chat_message_def)
  have d: "save_deleted_events [] [sample_deleted_event, sample_deleted_event]
     = [(1, sample_deleted_event)]"
    by (simp add: save_deleted_event_def sample_deleted_event_def next_id_def)
  have g: "length (filter (\<lambda>r. de_message_id (snd r) = Some ''m-1'')
        [(1 :: nat, sample_deleted_event)]) = 1"
    by (simp add: sample_deleted_event_def)
  from save_is_idempotent_on_dedup_key [OF a v c] b f d g show ?thesis
    by blast
qed

lemma save_chat_message_rows:
  "save_chat_message tbl m = (res, tbl1) \<Longrightarrow> set tbl1 \<subseteq> insert m (set tbl)"
  by (auto simp: save_chat_message_def split: option.splits if_splits)

lemma save_deleted_event_rows:
  "save_deleted_event tbl d = (res, tbl1) \<Longrightarrow> snd ` set tbl1 \<subseteq> insert d (snd ` set tbl)"
  by (auto simp: save_deleted_event_def split: option.splits if_splits)

lemma save_chat_message_truthy:
  assumes "save_chat_message tbl m = (res, tbl1)"
    and "\<forall>row \<in> set tbl. truthy (cm_stream_id row)"
    and "truthy (cm_stream_id m)"
  shows "\<forall>row \<in> set tbl1. truthy (cm_stream_id row)"
  using save_chat_message_rows [OF assms(1)] assms(2,3) by blast

lemma save_deleted_event_truthy:
  assumes "save_deleted_event tbl d = (res, tbl1)"
    and "\<forall>row \<in> set tbl. truthy (de_stream_id (snd row))"
    and "truthy (de_stream_id d)"
  shows "\<forall>row \<in> set tbl1. truthy (de_stream_id (snd row))"
proof
  fix row assume "row \<in> set tbl1"
  then have "snd row \<in> insert d (snd ` set tbl)"
    using save_deleted_event_rows [OF assms(1)] by blast
  with assms(2,3) show "truthy (de_stream_id (snd row))" by auto
qed

lemma update_stream_status_chat_messages:
  "update_stream_status get_streams st u = (r, st1) \<Longrightarrow> chat_messages st1 = chat_messages st"
  by (auto simp: update_stream_status_def Let_def
      split: sum.splits list.splits prod.splits option.splits if_splits)

lemma handle_message_keeps_stream_ids:
  assumes inv: "\<forall>row \<in> set (chat_messages st). truthy (cm_stream_id row)"
  shows "\<forall>row \<in> set (chat_messages (snd (handle_message get_streams st event))).
           truthy (cm_stream_id row)"
proof -
  let ?b = "cm_broadcaster_user_id event"
  obtain r st1 where u: "update_stream_status get_streams st ?b = (r, st1)"
    by (cases "update_stream_status get_streams st ?b")
  have c1: "chat_messages st1 = chat_messages st"
    using u by (rule update_stream_status_chat_messages)
  have store: "\<forall>row \<in> set tbl1. truthy (cm_stream_id row)"
    if "save_chat_message (chat_messages st) (event\<lparr>cm_stream_id := sid\<rparr>) = (res, tbl1)"
      and "truthy sid" for sid res tbl1
    using save_chat_message_truthy [OF that(1) inv] that(2) by simp
  show ?thesis
  proof (cases "truthy (streams_get (channel_streams st) ?b)")
    case True
    obtain res tbl1 where sv: "save_chat_message (chat_messages st)
        (event\<lparr>cm_stream_id := streams_get (channel_streams st) ?b\<rparr>) = (res, tbl1)"
      by (cases "save_chat_message (chat_messages st)
        (event\<lparr>cm_stream_id := streams_get (channel_streams st) ?b\<rparr>)")
    from store [OF sv True] inv True sv show ?thesis
      by (cases res) (simp_all add: handle_message_def Let_def)
  next
    case False
    show ?thesis
    proof (cases "r = None \<and> truthy (streams_get (channel_streams st1) ?b)")
      case True
      obtain res tbl1 where sv: "save_chat_message (chat_messages st)
          (event\<lparr>cm_stream_id := streams_get (channel_streams st1) ?b\<rparr>) = (res, tbl1)"
        by (cases "save_chat_message (chat_messages st)
          (event\<lparr>cm_stream_id := streams_get (channel_streams st1) ?b\<rparr>)")
      from store [OF sv] True inv sv \<open>\<not> truthy (streams_get (channel_streams st) ?b)\<close> u c1
      show ?thesis
        by (cases res) (simp_all add: handle_message_def Let_def)
    next
      case F2: False
      with False u c1 inv show ?thesis
        by (cases r) (auto simp: handle_message_def Let_def)
    qed
  qed
qed

lemma handle_delete_keeps_stream_ids:
  assumes inv: "\<forall>row \<in> set (deleted_events st). truthy (de_stream_id (snd row))"
  shows "\<forall>row \<in> set (deleted_events (snd (handle_delete get_streams st event))).
           truthy (de_stream_id (snd row))"
proof (cases "truthy (streams_get (channel_streams st) (de_broadcaster_user_id event))")
  case True
  let ?sid = "streams_get (channel_streams st) (de_broadcaster_user_id event)"
  obtain res tbl1 where sv:
    "save_deleted_event (deleted_events st) (event\<lparr>de_stream_id := ?sid\<rparr>) = (res, tbl1)"
    by (cases "save_deleted_event (deleted_events st) (event\<lparr>de_stream_id := ?sid\<rparr>)")
  from save_deleted_event_truthy [OF sv inv] True
  have "\<forall>row \<in> set tbl1. truthy (de_stream_id (snd row))" by simp
  with True sv inv show ?thesis
    by (cases res) (simp_all add: handle_delete_def Let_def)
next
  case False
  with inv show ?thesis by (simp add: handle_delete_def Let_def)
qed

lemma handle_delete_never_polls:
  "polls (snd (handle_delete get_streams st event)) = polls st"
  by (simp add: handle_delete_def Let_def split: prod.splits sum.splits)

lemma handle_ban_never_polls:
  "polls (snd (handle_ban get_streams st event)) = polls st"
  by (simp add: handle_ban_def Let_def split: prod.splits sum.splits)

lemma handle_unban_never_polls:
  "polls (snd (handle_unban get_streams st event)) = polls st"
  by (simp add: handle_unban_def Let_def split: prod.splits sum.splits)

text \<open>
  C4. An event whose channel has a known stream id is stored with that id, and no handler
  stores an event without one (\<open>handle_message_keeps_stream_ids\<close>,
  \<open>handle_delete_keeps_stream_ids\<close>). The on-demand resolution, however, exists in
  \<^verbatim>\<open>_handle_message\<close> only: the handlers for deletions, bans and unbans never ask the
  polling collaborator. In a collector that joined channel 10 while it was offline, with
  the channel live by now, a deletion is dropped without any resolution attempt, while a
  chat message in the same state is resolved and stored.
\<close>

theorem handle_delete_drops_without_resolution:
  "handle_delete now_live offline_collector (sample_deleted_event\<lparr>de_stream_id := None\<rparr>)
     = (Skipped, offline_collector)
   \<and> polls offline_collector = []
   \<and> handle_message now_live offline_collector ((sample_chat_message ''hi'')\<lparr>cm_stream_id := None\<rparr>)
     = (Persisted,
        offline_collector
          \<lparr> channel_streams := [Some ''10'' \<mapsto> Some ''s-1''],
            polls := [Some ''10''],
            streams := [live_stream],
            chat_messages := [sample_chat_message ''hi''] \<rparr>)"
  by (simp add: handle_delete_def handle_message_def update_stream_status_def
      save_stream_def save_chat_message_def streams_get_def truthy_def
      offline_collector_def now_live_def live_stream_def
      sample_deleted_event_def sample_chat_message_def Let_def)

text \<open>
  C2. However many callers find the access token expired at the same time, the refresh
  endpoint is called once and all of them get the same token pair. The lock of
  \<^verbatim>\<open>refresh_access_token\<close> only puts the refreshes one after the other: a caller that
  waited for the lock sends its own POST with the refresh token it was given. With two
  callers and a platform that rotates the refresh token, the endpoint is called twice,
  the first caller gets the new access token and the second one a \<^verbatim>\<open>ValueError\<close>.
\<close>

theorem concurrent_refresh_posts_twice:
  "run rotating_outside two_callers [0, 1, 0, 1, 0, 1, 0, 1, 1]
     = \<lparr> tasks = [Done (Inr ''a1''), Done (Inl ValueError)], lock_held = False,
         call_log = [ValidateCall ''a0'', ValidateCall ''a0'', RefreshCall ''r0'',
                     SaveEnvCall ''a1'' ''r1'', RefreshCall ''r0''] \<rparr>
   \<and> refresh_calls [ValidateCall ''a0'', ValidateCall ''a0'', RefreshCall ''r0'',
                     SaveEnvCall ''a1'' ''r1'', RefreshCall ''r0''] = 2"
  by (simp add: run_def step_def two_callers_def rotating_outside_def after_validate_def
      after_refresh_def validate_response_def refresh_finish_def refresh_calls_def)

end
